theory Spec2Isabelle
  imports Main "HOL-Library.Sublist"
begin

section \<open>Python values and errors\<close>

text \<open>
  The predicates of \<^verbatim>\<open>pybel/struct/filters/node_predicates.py\<close> inspect Python
  dictionaries. A value is a string, a list or a dictionary with string keys; a dictionary
  is the association list of its items in insertion order, with distinct keys. Every
  exception the source can raise is a value of \<open>error\<close>, and a call
  returns \<open>error + 'a\<close> with \<open>Inl\<close> for a raised exception.
\<close>

datatype error = ValueError | IndexError | KeyError | TypeError | NodeNotFound

datatype pyval = Str string | Seq "pyval list" | Dict "(string \<times> pyval) list"

type_synonym pydict = "(string \<times> pyval) list"

type_synonym node_data = pydict

type_synonym edge_data = pydict

text \<open>\<^verbatim>\<open>k in d\<close> and \<^verbatim>\<open>d[k]\<close> for a dictionary \<open>d\<close>; a missing key raises KeyError.\<close>

definition dict_contains :: "pydict \<Rightarrow> string \<Rightarrow> bool" where
  "dict_contains d k = (map_of d k \<noteq> None)"

definition dict_getitem :: "pydict \<Rightarrow> string \<Rightarrow> error + pyval" where
  "dict_getitem d k = (case map_of d k of None \<Rightarrow> Inl KeyError | Some v \<Rightarrow> Inr v)"

text \<open>
  The same two operations on a value of any shape, with a string \<open>k\<close>: \<^verbatim>\<open>k in v\<close> is
  key membership on a dictionary, the substring test on a string and element membership
  on a list; \<^verbatim>\<open>v[k]\<close> raises TypeError on a string and on a list, whose indices must be
  integers.
\<close>

fun py_contains :: "pyval \<Rightarrow> string \<Rightarrow> bool" where
  "py_contains (Dict d) k = dict_contains d k"
| "py_contains (Str s) k = sublist k s"
| "py_contains (Seq xs) k = (Str k \<in> set xs)"

fun py_getitem :: "pyval \<Rightarrow> string \<Rightarrow> error + pyval" where
  "py_getitem (Dict d) k = dict_getitem d k"
| "py_getitem (Str s) k = Inl TypeError"
| "py_getitem (Seq xs) k = Inl TypeError"

text \<open>
  Iteration: a list yields its elements, a string its characters as one-character
  strings, a dictionary its keys.
\<close>

fun py_iter :: "pyval \<Rightarrow> pyval list" where
  "py_iter (Seq xs) = xs"
| "py_iter (Str s) = map (\<lambda>c. Str [c]) s"
| "py_iter (Dict d) = map (\<lambda>kv. Str (fst kv)) d"

text \<open>
  \<^verbatim>\<open>v in S\<close> for a set \<open>S\<close> of strings hashes \<open>v\<close>: a list or a dictionary is unhashable
  and raises TypeError.
\<close>

fun py_in_str_set :: "pyval \<Rightarrow> string set \<Rightarrow> error + bool" where
  "py_in_str_set (Str s) S = Inr (s \<in> S)"
| "py_in_str_set (Seq xs) S = Inl TypeError"
| "py_in_str_set (Dict d) S = Inl TypeError"

section \<open>Vocabulary\<close>

text \<open>
  Modelled from the spec: the constants imported from \<^verbatim>\<open>pybel.constants\<close>, a module that
  is not among the sources. The spec takes them as opaque comparable tokens: the keys
  \<open>function\<close>, \<open>variants\<close>, \<open>kind\<close>, \<open>relation\<close>, \<open>subject\<close>, \<open>object\<close> and
  \<open>modifier\<close>, the function tokens Abundance, Gene, Protein and Pathology, the variant
  kinds protein-modification, gene-modification, HGVS and fragment, the modifiers
  Activity, Degradation and Translocation, and a fixed set of causal relation tokens
  (increases/decreases-style relations).
\<close>

definition FUNCTION :: string where "FUNCTION = ''function''"
definition VARIANTS :: string where "VARIANTS = ''variants''"
definition KIND :: string where "KIND = ''kind''"
definition RELATION :: string where "RELATION = ''relation''"
definition SUBJECT :: string where "SUBJECT = ''subject''"
definition OBJECT :: string where "OBJECT = ''object''"
definition MODIFIER :: string where "MODIFIER = ''modifier''"

definition ABUNDANCE :: string where "ABUNDANCE = ''Abundance''"
definition GENE :: string where "GENE = ''Gene''"
definition PROTEIN :: string where "PROTEIN = ''Protein''"
definition PATHOLOGY :: string where "PATHOLOGY = ''Pathology''"

definition PMOD :: string where "PMOD = ''pmod''"
definition GMOD :: string where "GMOD = ''gmod''"
definition HGVS :: string where "HGVS = ''hgvs''"
definition FRAGMENT :: string where "FRAGMENT = ''frag''"

definition ACTIVITY :: string where "ACTIVITY = ''Activity''"
definition DEGRADATION :: string where "DEGRADATION = ''Degradation''"
definition TRANSLOCATION :: string where "TRANSLOCATION = ''Translocation''"

definition INCREASES :: string where "INCREASES = ''increases''"
definition DIRECTLY_INCREASES :: string where "DIRECTLY_INCREASES = ''directlyIncreases''"
definition DECREASES :: string where "DECREASES = ''decreases''"
definition DIRECTLY_DECREASES :: string where "DIRECTLY_DECREASES = ''directlyDecreases''"

definition CAUSAL_RELATIONS :: "string set" where
  "CAUSAL_RELATIONS = {INCREASES, DIRECTLY_INCREASES, DECREASES, DIRECTLY_DECREASES}"

section \<open>The graph collaborator\<close>

text \<open>
  Modelled from the spec: the class \<^verbatim>\<open>BELGraph\<close> of \<^verbatim>\<open>pybel.struct.graph\<close>, which is not
  among the sources. The spec gives its capability contract: a lookup of the node data
  of a reference, which fails with NodeNotFound when the reference is absent; the ordered
  sequence of the in-edges and of the out-edges of a reference; and, for the edge scans,
  that a reference not present in the graph fails with NodeNotFound. A graph is its node
  table and the sequence of its edges \<open>(u, v, d)\<close> from \<open>u\<close> to \<open>v\<close> with data \<open>d\<close>; the
  type \<open>'r\<close> of node references is opaque.
\<close>

record 'r graph =
  node :: "'r \<rightharpoonup> node_data"
  edges :: "('r \<times> 'r \<times> edge_data) list"

abbreviation edge_source :: "'r \<times> 'r \<times> edge_data \<Rightarrow> 'r" where
  "edge_source e \<equiv> fst e"

abbreviation edge_target :: "'r \<times> 'r \<times> edge_data \<Rightarrow> 'r" where
  "edge_target e \<equiv> fst (snd e)"

abbreviation edge_dict :: "'r \<times> 'r \<times> edge_data \<Rightarrow> edge_data" where
  "edge_dict e \<equiv> snd (snd e)"

definition in_edges_iter :: "'r graph \<Rightarrow> 'r \<Rightarrow> error + ('r \<times> 'r \<times> edge_data) list" where
  "in_edges_iter g n =
     (if n \<in> dom (node g) then Inr (filter (\<lambda>e. edge_target e = n) (edges g))
      else Inl NodeNotFound)"

definition out_edges_iter :: "'r graph \<Rightarrow> 'r \<Rightarrow> error + ('r \<times> 'r \<times> edge_data) list" where
  "out_edges_iter g n =
     (if n \<in> dom (node g) then Inr (filter (\<lambda>e. edge_source e = n) (edges g))
      else Inl NodeNotFound)"

section \<open>The predicate adapter\<close>

text \<open>
  A positional argument of a call is a graph, a plain value or a node reference (a
  tuple). \<^verbatim>\<open>isinstance(x, BELGraph)\<close> holds of the first shape and
  \<^verbatim>\<open>isinstance(x, dict)\<close> of a plain value that is a dictionary.
\<close>

datatype 'r pyarg = BELGraph "'r graph" | Val pyval | Ref 'r

fun is_BELGraph :: "'r pyarg \<Rightarrow> bool" where
  "is_BELGraph (BELGraph g) = True"
| "is_BELGraph _ = False"

fun is_dict :: "'r pyarg \<Rightarrow> bool" where
  "is_dict (Val (Dict d)) = True"
| "is_dict _ = False"

text \<open>
  \<^verbatim>\<open>x.node[k]\<close>: the lookup of the spec for a node reference. Any other key is hashed by
  the node table first: a list or a dictionary is unhashable (TypeError); a string or a
  graph is hashable and is no node of the graph.
\<close>

fun node_getitem :: "'r graph \<Rightarrow> 'r pyarg \<Rightarrow> error + node_data" where
  "node_getitem g (Ref n) = (case node g n of None \<Rightarrow> Inl NodeNotFound | Some d \<Rightarrow> Inr d)"
| "node_getitem g (Val (Str s)) = Inl NodeNotFound"
| "node_getitem g (Val (Seq xs)) = Inl TypeError"
| "node_getitem g (Val (Dict d)) = Inl TypeError"
| "node_getitem g (BELGraph h) = Inl NodeNotFound"

text \<open>
  \<^verbatim>\<open>node_predicate(fn)\<close> returns \<^verbatim>\<open>wrapped\<close>. The decorated \<open>fn\<close> is called with a node
  data dictionary and the remaining positional arguments. The equations follow the
  source's order: no argument raises ValueError; a graph commits to
  \<^verbatim>\<open>fn(x.node[args[1]], *args[2:])\<close>, where \<^verbatim>\<open>args[1]\<close> raises IndexError on a
  one-element tuple; a dictionary is passed on with \<^verbatim>\<open>fn(*args)\<close>; anything else raises
  ValueError.
\<close>

fun node_predicate ::
  "(node_data \<Rightarrow> 'r pyarg list \<Rightarrow> error + bool) \<Rightarrow> 'r pyarg list \<Rightarrow> error + bool" where
  "node_predicate fn [] = Inl ValueError"
| "node_predicate fn [BELGraph g] = Inl IndexError"
| "node_predicate fn (BELGraph g # k # rest) =
     (case node_getitem g k of Inl e \<Rightarrow> Inl e | Inr d \<Rightarrow> fn d rest)"
| "node_predicate fn (Val (Dict d) # rest) = fn d rest"
| "node_predicate fn (Val (Str s) # rest) = Inl ValueError"
| "node_predicate fn (Val (Seq xs) # rest) = Inl ValueError"
| "node_predicate fn (Ref n # rest) = Inl ValueError"

text \<open>
  A Python function \<^verbatim>\<open>def f(data)\<close> of one parameter raises TypeError when it is called
  with more positional arguments.
\<close>

definition unary :: "(node_data \<Rightarrow> error + bool) \<Rightarrow> node_data \<Rightarrow> 'r pyarg list \<Rightarrow> error + bool" where
  "unary f data extra = (case extra of [] \<Rightarrow> f data | _ # _ \<Rightarrow> Inl TypeError)"

section \<open>Node-property predicates\<close>

text \<open>
  Each decorated function of the source has two constants here: the body \<open>f_fn\<close> on a
  node data dictionary, and \<open>f\<close>, the result of \<^verbatim>\<open>@node_predicate\<close>, on the
  positional arguments of a call. \<^verbatim>\<open>data[FUNCTION]\<close> raises KeyError when the key is
  missing.
\<close>

definition keep_node_permissive :: "'r graph \<Rightarrow> 'r \<Rightarrow> bool" where
  "keep_node_permissive g n = True"

definition is_abundance_fn :: "node_data \<Rightarrow> error + bool" where
  "is_abundance_fn data =
     (case dict_getitem data FUNCTION of Inl e \<Rightarrow> Inl e | Inr f \<Rightarrow> Inr (f = Str ABUNDANCE))"

definition is_abundance :: "'r pyarg list \<Rightarrow> error + bool" where
  "is_abundance = node_predicate (unary is_abundance_fn)"

definition is_gene_fn :: "node_data \<Rightarrow> error + bool" where
  "is_gene_fn data =
     (case dict_getitem data FUNCTION of Inl e \<Rightarrow> Inl e | Inr f \<Rightarrow> Inr (f = Str GENE))"

definition is_gene :: "'r pyarg list \<Rightarrow> error + bool" where
  "is_gene = node_predicate (unary is_gene_fn)"

definition is_protein_fn :: "node_data \<Rightarrow> error + bool" where
  "is_protein_fn data =
     (case dict_getitem data FUNCTION of Inl e \<Rightarrow> Inl e | Inr f \<Rightarrow> Inr (f = Str PROTEIN))"

definition is_protein :: "'r pyarg list \<Rightarrow> error + bool" where
  "is_protein = node_predicate (unary is_protein_fn)"

definition is_pathology_fn :: "node_data \<Rightarrow> error + bool" where
  "is_pathology_fn data =
     (case dict_getitem data FUNCTION of Inl e \<Rightarrow> Inl e | Inr f \<Rightarrow> Inr (f = Str PATHOLOGY))"

definition is_pathology :: "'r pyarg list \<Rightarrow> error + bool" where
  "is_pathology = node_predicate (unary is_pathology_fn)"

definition not_pathology_fn :: "node_data \<Rightarrow> error + bool" where
  "not_pathology_fn data =
     (case dict_getitem data FUNCTION of Inl e \<Rightarrow> Inl e | Inr f \<Rightarrow> Inr (f \<noteq> Str PATHOLOGY))"

definition not_pathology :: "'r pyarg list \<Rightarrow> error + bool" where
  "not_pathology = node_predicate (unary not_pathology_fn)"

definition has_variant_fn :: "node_data \<Rightarrow> error + bool" where
  "has_variant_fn data = Inr (dict_contains data VARIANTS)"

definition has_variant :: "'r pyarg list \<Rightarrow> error + bool" where
  "has_variant = node_predicate (unary has_variant_fn)"

text \<open>
  \<^verbatim>\<open>any(variant_dict[KIND] == variant for variant_dict in ...)\<close>: the generator is
  consumed from the left, stops at the first true comparison, and an exception raised by
  \<^verbatim>\<open>variant_dict[KIND]\<close> on the way leaves the call.
\<close>

fun any_kind :: "pyval list \<Rightarrow> string \<Rightarrow> error + bool" where
  "any_kind [] variant = Inr False"
| "any_kind (variant_dict # rest) variant =
     (case py_getitem variant_dict KIND of
        Inl e \<Rightarrow> Inl e
      | Inr k \<Rightarrow> if k = Str variant then Inr True else any_kind rest variant)"

definition node_has_variant :: "node_data \<Rightarrow> string \<Rightarrow> error + bool" where
  "node_has_variant data variant =
     (if dict_contains data VARIANTS then
        (case dict_getitem data VARIANTS of
           Inl e \<Rightarrow> Inl e
         | Inr vs \<Rightarrow> any_kind (py_iter vs) variant)
      else Inr False)"

definition has_protein_modification_fn :: "node_data \<Rightarrow> error + bool" where
  "has_protein_modification_fn data = node_has_variant data PMOD"

definition has_protein_modification :: "'r pyarg list \<Rightarrow> error + bool" where
  "has_protein_modification = node_predicate (unary has_protein_modification_fn)"

definition has_gene_modification_fn :: "node_data \<Rightarrow> error + bool" where
  "has_gene_modification_fn data = node_has_variant data GMOD"

definition has_gene_modification :: "'r pyarg list \<Rightarrow> error + bool" where
  "has_gene_modification = node_predicate (unary has_gene_modification_fn)"

definition has_hgvs_fn :: "node_data \<Rightarrow> error + bool" where
  "has_hgvs_fn data = node_has_variant data HGVS"

definition has_hgvs :: "'r pyarg list \<Rightarrow> error + bool" where
  "has_hgvs = node_predicate (unary has_hgvs_fn)"

definition has_fragment_fn :: "node_data \<Rightarrow> error + bool" where
  "has_fragment_fn data = node_has_variant data FRAGMENT"

definition has_fragment :: "'r pyarg list \<Rightarrow> error + bool" where
  "has_fragment = node_predicate (unary has_fragment_fn)"

section \<open>The edge-qualifier scanner\<close>

text \<open>
  The condition of both loops of \<^verbatim>\<open>_node_has_modifier\<close>, for the key \<open>side\<close> (OBJECT in
  the first loop, SUBJECT in the second):
  \<^verbatim>\<open>side in d and MODIFIER in d[side] and d[side][MODIFIER] == modifier\<close>.
\<close>

definition qualifier_matches :: "string \<Rightarrow> edge_data \<Rightarrow> string \<Rightarrow> error + bool" where
  "qualifier_matches side d modifier =
     (if dict_contains d side then
        (case dict_getitem d side of
           Inl e \<Rightarrow> Inl e
         | Inr q \<Rightarrow>
             if py_contains q MODIFIER then
               (case py_getitem q MODIFIER of
                  Inl e \<Rightarrow> Inl e
                | Inr x \<Rightarrow> Inr (x = Str modifier))
             else Inr False)
      else Inr False)"

text \<open>
  One loop: \<open>Inr True\<close> is the \<^verbatim>\<open>return True\<close> inside the loop, \<open>Inr False\<close> the loop
  running to its end.
\<close>

fun scan_edges :: "string \<Rightarrow> ('r \<times> 'r \<times> edge_data) list \<Rightarrow> string \<Rightarrow> error + bool" where
  "scan_edges side [] modifier = Inr False"
| "scan_edges side ((u, v, d) # es) modifier =
     (case qualifier_matches side d modifier of
        Inl e \<Rightarrow> Inl e
      | Inr b \<Rightarrow> if b then Inr True else scan_edges side es modifier)"

definition node_has_modifier :: "'r graph \<Rightarrow> 'r \<Rightarrow> string \<Rightarrow> error + bool" where
  "node_has_modifier g n modifier =
     (case in_edges_iter g n of
        Inl e \<Rightarrow> Inl e
      | Inr ins \<Rightarrow>
          (case scan_edges OBJECT ins modifier of
             Inl e \<Rightarrow> Inl e
           | Inr b \<Rightarrow>
               if b then Inr True
               else (case out_edges_iter g n of
                       Inl e \<Rightarrow> Inl e
                     | Inr outs \<Rightarrow> scan_edges SUBJECT outs modifier)))"

definition has_activity :: "'r graph \<Rightarrow> 'r \<Rightarrow> error + bool" where
  "has_activity g n = node_has_modifier g n ACTIVITY"

definition is_degraded :: "'r graph \<Rightarrow> 'r \<Rightarrow> error + bool" where
  "is_degraded g n = node_has_modifier g n DEGRADATION"

definition is_translocated :: "'r graph \<Rightarrow> 'r \<Rightarrow> error + bool" where
  "is_translocated g n = node_has_modifier g n TRANSLOCATION"

text \<open>
  \<^verbatim>\<open>any(data[RELATION] in CAUSAL_RELATIONS for _, _, data in ...)\<close>: \<^verbatim>\<open>data[RELATION]\<close>
  raises KeyError on an edge without the key.
\<close>

fun any_causal :: "('r \<times> 'r \<times> edge_data) list \<Rightarrow> error + bool" where
  "any_causal [] = Inr False"
| "any_causal ((u, v, d) # es) =
     (case dict_getitem d RELATION of
        Inl e \<Rightarrow> Inl e
      | Inr r \<Rightarrow>
          (case py_in_str_set r CAUSAL_RELATIONS of
             Inl e \<Rightarrow> Inl e
           | Inr b \<Rightarrow> if b then Inr True else any_causal es))"

definition has_causal_in_edges :: "'r graph \<Rightarrow> 'r \<Rightarrow> error + bool" where
  "has_causal_in_edges g n =
     (case in_edges_iter g n of Inl e \<Rightarrow> Inl e | Inr ins \<Rightarrow> any_causal ins)"

definition has_causal_out_edges :: "'r graph \<Rightarrow> 'r \<Rightarrow> error + bool" where
  "has_causal_out_edges g n =
     (case out_edges_iter g n of Inl e \<Rightarrow> Inl e | Inr outs \<Rightarrow> any_causal outs)"

section \<open>The exclusion-set filter builder\<close>

text \<open>
  An element of the input sequence is a node data dictionary or a node tuple, as the
  docstring of \<^verbatim>\<open>node_exclusion_filter_builder\<close> says.

  Modelled from the spec: \<^verbatim>\<open>node_to_tuple\<close> of \<^verbatim>\<open>pybel.tokens\<close> is not among the sources.
  The spec makes it a total and deterministic canonicalization of node data to a node
  reference; it is the parameter \<open>node_to_tuple\<close> of the builder.
\<close>

datatype 'r node_arg = NodeDict node_data | NodeTuple 'r

definition node_exclusion_filter_builder ::
  "(node_data \<Rightarrow> 'r) \<Rightarrow> 'r node_arg list \<Rightarrow> 'r pyarg list \<Rightarrow> error + bool" where
  "node_exclusion_filter_builder node_to_tuple nodes =
     (let nodes' = set (map (\<lambda>node. case node of NodeDict d \<Rightarrow> node_to_tuple d
                                              | NodeTuple t \<Rightarrow> t) nodes)
      in node_predicate (unary (\<lambda>data. Inr (node_to_tuple data \<notin> nodes'))))"

section \<open>Qualifier constructors\<close>

text \<open>
  Modelled from the spec: the constructors \<^verbatim>\<open>translocation\<close> and \<^verbatim>\<open>secretion\<close> of
  \<^verbatim>\<open>pybel.dsl\<close>, which is not among the sources. The spec says that a qualifier
  sub-record carries a \<open>modifier\<close> key, that a Translocation has a source and a target
  location, and that a secretion is represented as a Translocation-kind modifier. The
  spec fixes neither the keys of the two locations nor the locations of a secretion.
\<close>

definition translocation :: "pyval \<Rightarrow> pyval \<Rightarrow> pydict" where
  "translocation from_loc to_loc =
     [(MODIFIER, Str TRANSLOCATION), (''from_loc'', from_loc), (''to_loc'', to_loc)]"

definition secretion :: pydict where
  "secretion = translocation (Str ''intracellular'') (Str ''extracellular space'')"

section \<open>Notions of the specification\<close>

text \<open>
  The edge data \<open>d\<close> carries a \<open>side\<close> qualifier sub-record whose modifier equals \<open>m\<close>;
  it carries a \<open>side\<close> qualifier sub-record that lacks the \<open>modifier\<close> key.
\<close>

definition carries_modifier :: "string \<Rightarrow> edge_data \<Rightarrow> string \<Rightarrow> bool" where
  "carries_modifier side d m =
     (case map_of d side of
        Some (Dict q) \<Rightarrow> map_of q MODIFIER = Some (Str m)
      | _ \<Rightarrow> False)"

definition lacks_modifier :: "string \<Rightarrow> edge_data \<Rightarrow> bool" where
  "lacks_modifier side d =
     (case map_of d side of
        Some (Dict q) \<Rightarrow> map_of q MODIFIER = None
      | _ \<Rightarrow> False)"

text \<open>
  The data model of the spec: the \<open>subject\<close> and \<open>object\<close> entries of an edge, where
  present, are sub-records (dictionaries), and every edge carries a relation token.
\<close>

definition qualifier_is_record :: "string \<Rightarrow> edge_data \<Rightarrow> bool" where
  "qualifier_is_record side d =
     (case map_of d side of None \<Rightarrow> True | Some (Dict q) \<Rightarrow> True | Some _ \<Rightarrow> False)"

definition qualifiers_are_records :: "('r \<times> 'r \<times> edge_data) list \<Rightarrow> bool" where
  "qualifiers_are_records es =
     list_all (\<lambda>e. qualifier_is_record SUBJECT (edge_dict e) \<and>
                   qualifier_is_record OBJECT (edge_dict e)) es"

definition relation_token :: "edge_data \<Rightarrow> string option" where
  "relation_token d = (case map_of d RELATION of Some (Str r) \<Rightarrow> Some r | _ \<Rightarrow> None)"

definition edges_have_relation :: "('r \<times> 'r \<times> edge_data) list \<Rightarrow> bool" where
  "edges_have_relation es = list_all (\<lambda>e. relation_token (edge_dict e) \<noteq> None) es"

definition is_causal :: "edge_data \<Rightarrow> bool" where
  "is_causal d = (case relation_token d of Some r \<Rightarrow> r \<in> CAUSAL_RELATIONS | None \<Rightarrow> False)"

text \<open>
  The data model of the spec for node data: the \<open>variants\<close> entry, where present, is a
  sequence of variant records, each of which carries a \<open>kind\<close>.
\<close>

definition is_variant_record :: "pyval \<Rightarrow> bool" where
  "is_variant_record v = (case v of Dict r \<Rightarrow> map_of r KIND \<noteq> None | _ \<Rightarrow> False)"

definition variants_are_records :: "node_data \<Rightarrow> bool" where
  "variants_are_records data =
     (case map_of data VARIANTS of
        None \<Rightarrow> True
      | Some (Seq vs) \<Rightarrow> list_all is_variant_record vs
      | Some _ \<Rightarrow> False)"

definition variant_kind :: "pyval \<Rightarrow> pyval option" where
  "variant_kind v = (case v of Dict r \<Rightarrow> map_of r KIND | _ \<Rightarrow> None)"

definition variant_records :: "node_data \<Rightarrow> pyval list" where
  "variant_records data = (case map_of data VARIANTS of Some (Seq vs) \<Rightarrow> vs | _ \<Rightarrow> [])"

text \<open>At least one variant record of the node has the kind \<open>variant\<close>.\<close>

definition has_kind :: "node_data \<Rightarrow> string \<Rightarrow> bool" where
  "has_kind data variant =
     (\<exists>v \<in> set (variant_records data). variant_kind v = Some (Str variant))"

text \<open>
  Some in-edge of \<open>n\<close> carries an object qualifier sub-record whose modifier equals \<open>m\<close>;
  some out-edge of \<open>n\<close> carries a subject qualifier sub-record whose modifier equals \<open>m\<close>;
  some in-edge, some out-edge of \<open>n\<close> has a relation token in the causal set.
\<close>

definition in_edge_carries :: "'r graph \<Rightarrow> 'r \<Rightarrow> string \<Rightarrow> bool" where
  "in_edge_carries g n m =
     (\<exists>e \<in> set (edges g). edge_target e = n \<and> carries_modifier OBJECT (edge_dict e) m)"

definition out_edge_carries :: "'r graph \<Rightarrow> 'r \<Rightarrow> string \<Rightarrow> bool" where
  "out_edge_carries g n m =
     (\<exists>e \<in> set (edges g). edge_source e = n \<and> carries_modifier SUBJECT (edge_dict e) m)"

definition in_edge_causal :: "'r graph \<Rightarrow> 'r \<Rightarrow> bool" where
  "in_edge_causal g n = (\<exists>e \<in> set (edges g). edge_target e = n \<and> is_causal (edge_dict e))"

definition out_edge_causal :: "'r graph \<Rightarrow> 'r \<Rightarrow> bool" where
  "out_edge_causal g n = (\<exists>e \<in> set (edges g). edge_source e = n \<and> is_causal (edge_dict e))"

text \<open>The canonicalized input set of the exclusion filter.\<close>

definition canonical_set :: "(node_data \<Rightarrow> 'r) \<Rightarrow> 'r node_arg list \<Rightarrow> 'r set" where
  "canonical_set node_to_tuple nodes =
     (\<lambda>node. case node of NodeDict d \<Rightarrow> node_to_tuple d | NodeTuple t \<Rightarrow> t) ` set nodes"

section \<open>Example graphs and nodes\<close>

text \<open>
  The graphs and nodes of the repository's tests, with strings as node references:
  an edge from \<open>u\<close> to \<open>v\<close> with an activity on the subject and a degradation on the
  object (\<^verbatim>\<open>test_p1_active\<close>); with a translocation, with a secretion on the object
  (\<^verbatim>\<open>test_object_has_translocation\<close>, \<^verbatim>\<open>test_object_has_secretion\<close>); and with an object
  sub-record that carries a location and no modifier. The nodes are a protein without
  variants, the same protein with an HGVS variant and a protein modification, and a gene
  with a gene modification.
\<close>

definition two_nodes :: "string \<rightharpoonup> node_data" where
  "two_nodes = [''u'' \<mapsto> [(FUNCTION, Str PROTEIN)], ''v'' \<mapsto> [(FUNCTION, Str ABUNDANCE)]]"

definition graph_active :: "string graph" where
  "graph_active =
     \<lparr>node = two_nodes,
      edges = [(''u'', ''v'',
                [(RELATION, Str INCREASES),
                 (SUBJECT, Dict [(MODIFIER, Str ACTIVITY)]),
                 (OBJECT, Dict [(MODIFIER, Str DEGRADATION)])])]\<rparr>"

definition graph_translocation :: "string graph" where
  "graph_translocation =
     \<lparr>node = two_nodes,
      edges = [(''u'', ''v'',
                [(RELATION, Str INCREASES),
                 (OBJECT, Dict (translocation (Str ''nucleus'') (Str ''cytoplasm'')))])]\<rparr>"

definition graph_secretion :: "string graph" where
  "graph_secretion =
     \<lparr>node = two_nodes,
      edges = [(''u'', ''v'', [(RELATION, Str INCREASES), (OBJECT, Dict secretion)])]\<rparr>"

definition graph_location :: "string graph" where
  "graph_location =
     \<lparr>node = two_nodes,
      edges = [(''u'', ''v'',
                [(RELATION, Str INCREASES),
                 (OBJECT, Dict [(''location'', Str ''cytoplasm'')])])]\<rparr>"

text \<open>
  A canonicalization for the examples: the function, the namespace and the name of a
  node, in this order.
\<close>

definition name_tuple :: "node_data \<Rightarrow> string list" where
  "name_tuple data =
     map (\<lambda>k. case map_of data k of Some (Str s) \<Rightarrow> s | _ \<Rightarrow> [])
       [FUNCTION, ''namespace'', ''name'']"

definition p1 :: node_data where
  "p1 = [(FUNCTION, Str PROTEIN), (''namespace'', Str ''HGNC''), (''name'', Str ''BRAF'')]"

definition p2 :: node_data where
  "p2 = [(FUNCTION, Str PROTEIN), (''namespace'', Str ''HGNC''), (''name'', Str ''BRAF''),
         (VARIANTS, Seq [Dict [(KIND, Str HGVS), (''identifier'', Str ''p.Val600Glu'')],
                         Dict [(KIND, Str PMOD), (''identifier'', Str ''Ph'')]])]"

definition g1 :: node_data where
  "g1 = [(FUNCTION, Str GENE), (''namespace'', Str ''HGNC''), (''name'', Str ''BRAF''),
         (VARIANTS, Seq [Dict [(KIND, Str GMOD), (''identifier'', Str ''Me'')]])]"

section \<open>Properties of the predicate adapter\<close>

lemma node_predicate_graph_form:
  "node g n = Some d \<Longrightarrow> node_predicate fn (BELGraph g # Ref n # extra) = fn d extra"
  by simp

lemma node_predicate_data_form:
  "node_predicate fn (Val (Dict d) # extra) = fn d extra"
  by simp

lemma node_predicate_other_first:
  "\<not> is_BELGraph x \<Longrightarrow> \<not> is_dict x \<Longrightarrow> node_predicate fn (x # rest) = Inl ValueError"
  by (cases "(fn, x # rest)" rule: node_predicate.cases) auto

text \<open>
  C2: for every decorated function \<open>fn\<close>, every graph \<open>g\<close> and every node \<open>n\<close> present in
  \<open>g\<close> with node data \<open>d\<close>, the adapted predicate called in the graph form \<open>(g, n)\<close>
  agrees with the adapted predicate called in the bare-data form \<open>(d)\<close>: both return the
  same boolean or raise the same exception. The same holds with further positional
  arguments \<open>extra\<close> on both sides; the claim is the case \<open>extra = []\<close>.
\<close>

theorem node_predicate_round_trip:
  "node g n = Some d \<Longrightarrow>
   node_predicate fn (BELGraph g # Ref n # extra) = node_predicate fn (Val (Dict d) # extra)"
  by (simp only: node_predicate_graph_form node_predicate_data_form)

theorem node_predicate_round_trip_witness:
  "node \<lparr>node = [''p'' \<mapsto> [(FUNCTION, Str PROTEIN)]], edges = []\<rparr> ''p''
     = Some [(FUNCTION, Str PROTEIN)] \<and>
   is_protein [BELGraph \<lparr>node = [''p'' \<mapsto> [(FUNCTION, Str PROTEIN)]], edges = []\<rparr>, Ref ''p'']
     = is_protein [Val (Dict [(FUNCTION, Str PROTEIN)])] \<and>
   is_protein [Val (Dict [(FUNCTION, Str PROTEIN)]) :: string pyarg] = Inr True"
  using node_predicate_round_trip
    [of "\<lparr>node = [''p'' \<mapsto> [(FUNCTION, Str PROTEIN)]], edges = []\<rparr>" "''p''"
        "[(FUNCTION, Str PROTEIN)]" "unary is_protein_fn" "[]"]
  by (simp add: is_protein_def is_protein_fn_def unary_def dict_getitem_def)

text \<open>
  C4: a call of an adapted predicate with no argument, or with a first argument that is
  neither a graph nor a dictionary, raises ValueError (the InvalidArgument of the spec),
  whatever the decorated function and the other arguments are. The exception is the
  result of the call: the wrapper has no handler.
\<close>

theorem node_predicate_invalid_argument:
  "node_predicate fn [] = Inl ValueError \<and>
   (\<not> is_BELGraph x \<and> \<not> is_dict x \<longrightarrow> node_predicate fn (x # rest) = Inl ValueError)"
  by (simp add: node_predicate_other_first)

theorem node_predicate_invalid_argument_witness:
  "is_protein ([] :: string pyarg list) = Inl ValueError \<and>
   \<not> is_BELGraph (Ref ''p'' :: string pyarg) \<and> \<not> is_dict (Ref ''p'' :: string pyarg) \<and>
   is_protein [Ref ''p'', Val (Dict [(FUNCTION, Str PROTEIN)])] = Inl ValueError"
  using node_predicate_invalid_argument
    [of "unary is_protein_fn" "Ref ''p''" "[Val (Dict [(FUNCTION, Str PROTEIN)])]"]
  by (simp add: is_protein_def)

text \<open>
  C10: a call of an adapted predicate whose only argument is a graph does not raise the
  ValueError of the adapter: the wrapper takes the graph branch and evaluates
  \<^verbatim>\<open>args[1]\<close> on a one-element argument tuple, which raises IndexError.
\<close>

theorem node_predicate_graph_without_node:
  "node_predicate fn [BELGraph g] = Inl IndexError \<and>
   node_predicate fn [BELGraph g] \<noteq> Inl ValueError"
  by simp

theorem node_predicate_graph_without_node_witness:
  "is_protein [BELGraph \<lparr>node = [''p'' \<mapsto> [(FUNCTION, Str PROTEIN)]], edges = []\<rparr>]
     = Inl IndexError"
  using node_predicate_graph_without_node
    [of "unary is_protein_fn" "\<lparr>node = [''p'' \<mapsto> [(FUNCTION, Str PROTEIN)]], edges = []\<rparr>"]
  by (simp add: is_protein_def)

section \<open>Properties of the edge-qualifier scanner\<close>

lemma qualifier_matches_True_iff:
  "qualifier_matches side d m = Inr True \<longleftrightarrow> carries_modifier side d m"
proof (cases "map_of d side")
  case None
  then show ?thesis
    by (simp add: qualifier_matches_def carries_modifier_def dict_contains_def)
next
  case (Some q)
  then show ?thesis
    by (cases q)
       (auto simp: qualifier_matches_def carries_modifier_def dict_contains_def
                   dict_getitem_def split: option.splits)
qed

lemma qualifier_matches_record:
  "qualifier_is_record side d \<Longrightarrow> qualifier_matches side d m = Inr (carries_modifier side d m)"
proof (cases "map_of d side")
  case None
  then show ?thesis
    by (simp add: qualifier_matches_def carries_modifier_def dict_contains_def)
next
  case (Some q)
  assume "qualifier_is_record side d"
  with Some show ?thesis
    by (cases q)
       (auto simp: qualifier_matches_def carries_modifier_def dict_contains_def
                   dict_getitem_def qualifier_is_record_def split: option.splits)
qed

lemma qualifier_matches_lacks:
  "lacks_modifier side d \<Longrightarrow> qualifier_matches side d m = Inr False"
  by (auto simp: lacks_modifier_def qualifier_matches_def dict_contains_def dict_getitem_def
           split: option.splits pyval.splits)

lemma scan_edges_records:
  "list_all (\<lambda>e. qualifier_is_record side (edge_dict e)) es \<Longrightarrow>
   scan_edges side es m = Inr (\<exists>e \<in> set es. carries_modifier side (edge_dict e) m)"
proof (induction es)
  case Nil
  then show ?case by simp
next
  case (Cons e es)
  obtain u v d where e: "e = (u, v, d)" by (cases e)
  from Cons.prems have d: "qualifier_is_record side d"
    and rest: "list_all (\<lambda>e. qualifier_is_record side (edge_dict e)) es"
    by (simp_all add: e)
  show ?case
    using Cons.IH [OF rest] by (simp add: e qualifier_matches_record [OF d])
qed

lemma scan_edges_True:
  "scan_edges side es m = Inr True \<Longrightarrow> \<exists>e \<in> set es. carries_modifier side (edge_dict e) m"
proof (induction es)
  case Nil
  then show ?case by simp
next
  case (Cons e es)
  obtain u v d where e: "e = (u, v, d)" by (cases e)
  show ?case
  proof (cases "qualifier_matches side d m = Inr True")
    case True
    then show ?thesis by (simp add: e qualifier_matches_True_iff)
  next
    case False
    with Cons.prems have "scan_edges side es m = Inr True"
      by (auto simp: e split: sum.splits if_splits)
    with Cons.IH show ?thesis by simp
  qed
qed

lemma scan_edges_skip:
  "lacks_modifier side d \<Longrightarrow> scan_edges side ((u, v, d) # es) m = scan_edges side es m"
  by (simp add: qualifier_matches_lacks)

lemma node_has_modifier_records:
  assumes n: "n \<in> dom (node g)" and wf: "qualifiers_are_records (edges g)"
  shows "node_has_modifier g n m =
     Inr ((\<exists>e \<in> set (edges g). edge_target e = n \<and> carries_modifier OBJECT (edge_dict e) m) \<or>
          (\<exists>e \<in> set (edges g). edge_source e = n \<and> carries_modifier SUBJECT (edge_dict e) m))"
proof -
  let ?ins = "filter (\<lambda>e. edge_target e = n) (edges g)"
  let ?outs = "filter (\<lambda>e. edge_source e = n) (edges g)"
  from wf have "list_all (\<lambda>e. qualifier_is_record OBJECT (edge_dict e)) ?ins"
    by (simp add: qualifiers_are_records_def list_all_iff)
  then have ins: "scan_edges OBJECT ?ins m =
      Inr (\<exists>e \<in> set ?ins. carries_modifier OBJECT (edge_dict e) m)"
    by (rule scan_edges_records)
  from wf have "list_all (\<lambda>e. qualifier_is_record SUBJECT (edge_dict e)) ?outs"
    by (simp add: qualifiers_are_records_def list_all_iff)
  then have outs: "scan_edges SUBJECT ?outs m =
      Inr (\<exists>e \<in> set ?outs. carries_modifier SUBJECT (edge_dict e) m)"
    by (rule scan_edges_records)
  have ins': "(\<exists>e \<in> set ?ins. carries_modifier OBJECT (edge_dict e) m) \<longleftrightarrow>
      (\<exists>e \<in> set (edges g). edge_target e = n \<and> carries_modifier OBJECT (edge_dict e) m)"
    unfolding set_filter by blast
  have outs': "(\<exists>e \<in> set ?outs. carries_modifier SUBJECT (edge_dict e) m) \<longleftrightarrow>
      (\<exists>e \<in> set (edges g). edge_source e = n \<and> carries_modifier SUBJECT (edge_dict e) m)"
    unfolding set_filter by blast
  from n show ?thesis
    unfolding node_has_modifier_def in_edges_iter_def out_edges_iter_def
    by (simp only: ins outs ins' outs' if_True sum.case) auto
qed

lemma node_has_modifier_absent:
  "n \<notin> dom (node g) \<Longrightarrow> node_has_modifier g n m = Inl NodeNotFound"
  by (simp add: node_has_modifier_def in_edges_iter_def)

lemma scan_edges_False:
  "scan_edges side es m = Inr False \<Longrightarrow> \<forall>e \<in> set es. \<not> carries_modifier side (edge_dict e) m"
proof (induction es)
  case Nil
  then show ?case by simp
next
  case (Cons e es)
  obtain u v d where e: "e = (u, v, d)" by (cases e)
  from Cons.prems have here: "qualifier_matches side d m = Inr False"
    and rest: "scan_edges side es m = Inr False"
    by (auto simp: e split: sum.splits if_splits)
  from here have "\<not> carries_modifier side d m"
    using qualifier_matches_True_iff [of side d m] by simp
  with Cons.IH [OF rest] show ?case by (simp add: e)
qed

lemma scan_edges_match:
  assumes "list_all (\<lambda>e. qualifier_is_record side (edge_dict e)) pre"
    and "carries_modifier side d m"
  shows "scan_edges side (pre @ (u, v, d) # post) m = Inr True"
  using assms
proof (induction pre)
  case Nil
  then show ?case by (simp add: iffD2 [OF qualifier_matches_True_iff])
next
  case (Cons e pre)
  obtain u' v' d' where e: "e = (u', v', d')" by (cases e)
  from Cons show ?case by (simp add: e qualifier_matches_record)
qed

lemma node_has_modifier_result:
  assumes "node_has_modifier g n m = Inr b"
  shows "b \<longleftrightarrow>
     (\<exists>e \<in> set (edges g). edge_target e = n \<and> carries_modifier OBJECT (edge_dict e) m) \<or>
     (\<exists>e \<in> set (edges g). edge_source e = n \<and> carries_modifier SUBJECT (edge_dict e) m)"
proof -
  let ?ins = "filter (\<lambda>e. edge_target e = n) (edges g)"
  let ?outs = "filter (\<lambda>e. edge_source e = n) (edges g)"
  have ins': "(\<exists>e \<in> set ?ins. carries_modifier OBJECT (edge_dict e) m) \<longleftrightarrow>
      (\<exists>e \<in> set (edges g). edge_target e = n \<and> carries_modifier OBJECT (edge_dict e) m)"
    unfolding set_filter by blast
  have outs': "(\<exists>e \<in> set ?outs. carries_modifier SUBJECT (edge_dict e) m) \<longleftrightarrow>
      (\<exists>e \<in> set (edges g). edge_source e = n \<and> carries_modifier SUBJECT (edge_dict e) m)"
    unfolding set_filter by blast
  from assms have n: "n \<in> dom (node g)"
    by (auto simp: node_has_modifier_def in_edges_iter_def split: if_splits)
  from assms n obtain b1 where b1: "scan_edges OBJECT ?ins m = Inr b1"
    by (auto simp: node_has_modifier_def in_edges_iter_def split: sum.splits)
  show ?thesis
  proof (cases b1)
    case True
    with b1 assms n have "b" 
      by (simp add: node_has_modifier_def in_edges_iter_def)
    moreover from True b1 have "scan_edges OBJECT ?ins m = Inr True" by simp
    then have "\<exists>e \<in> set ?ins. carries_modifier OBJECT (edge_dict e) m"
      by (rule scan_edges_True)
    ultimately show ?thesis using ins' by blast
  next
    case False
    with b1 have "scan_edges OBJECT ?ins m = Inr False" by simp
    then have no_in: "\<not> (\<exists>e \<in> set ?ins. carries_modifier OBJECT (edge_dict e) m)"
      using scan_edges_False [of OBJECT ?ins m] by blast
    from False b1 assms n have out: "scan_edges SUBJECT ?outs m = Inr b"
      by (simp add: node_has_modifier_def in_edges_iter_def out_edges_iter_def)
    have "b \<longleftrightarrow> (\<exists>e \<in> set ?outs. carries_modifier SUBJECT (edge_dict e) m)"
    proof (cases b)
      case True
      with out have "scan_edges SUBJECT ?outs m = Inr True" by simp
      then have "\<exists>e \<in> set ?outs. carries_modifier SUBJECT (edge_dict e) m"
        by (rule scan_edges_True)
      with True show ?thesis by blast
    next
      case False
      with out have "scan_edges SUBJECT ?outs m = Inr False" by simp
      then have "\<forall>e \<in> set ?outs. \<not> carries_modifier SUBJECT (edge_dict e) m"
        by (rule scan_edges_False)
      with False show ?thesis by blast
    qed
    with no_in ins' outs' show ?thesis by blast
  qed
qed

lemma node_has_modifier_first_in_match:
  assumes n: "n \<in> dom (node g)" and split: "edges g = pre @ (u, n, d) # post"
    and pre: "qualifiers_are_records pre" and d: "carries_modifier OBJECT d m"
  shows "node_has_modifier g n m = Inr True"
proof -
  let ?P = "\<lambda>e :: 'a \<times> 'a \<times> edge_data. edge_target e = n"
  from pre have "list_all (\<lambda>e. qualifier_is_record OBJECT (edge_dict e)) (filter ?P pre)"
    by (simp add: qualifiers_are_records_def list_all_iff)
  then have "scan_edges OBJECT (filter ?P pre @ (u, n, d) # filter ?P post) m = Inr True"
    using d by (rule scan_edges_match)
  with n split show ?thesis
    by (simp add: node_has_modifier_def in_edges_iter_def)
qed

lemma carries_modifier_unique:
  "carries_modifier side d m \<Longrightarrow> carries_modifier side d m' \<Longrightarrow> m = m'"
  by (auto simp: carries_modifier_def split: option.splits pyval.splits)

lemma carries_modifier_record:
  "carries_modifier side d m \<Longrightarrow> qualifier_is_record side d"
  by (auto simp: carries_modifier_def qualifier_is_record_def split: option.splits pyval.splits)

lemma lacks_modifier_record:
  "lacks_modifier side d \<Longrightarrow> qualifier_is_record side d \<and> \<not> carries_modifier side d m"
  by (auto simp: lacks_modifier_def carries_modifier_def qualifier_is_record_def
           split: option.splits pyval.splits)

lemma modifiers_distinct:
  "ACTIVITY \<noteq> DEGRADATION" "ACTIVITY \<noteq> TRANSLOCATION" "DEGRADATION \<noteq> TRANSLOCATION"
  by (simp_all add: ACTIVITY_def DEGRADATION_def TRANSLOCATION_def)

lemma single_edge_modifiers:
  assumes e: "edges g = [(a, b, d)]" and ab: "a \<noteq> b"
    and a: "a \<in> dom (node g)" and b: "b \<in> dom (node g)"
    and s: "carries_modifier SUBJECT d ACTIVITY" and ob: "carries_modifier OBJECT d DEGRADATION"
  shows "has_activity g a = Inr True \<and> is_degraded g a = Inr False \<and>
         has_activity g b = Inr False \<and> is_degraded g b = Inr True"
proof -
  from s ob have wf: "qualifiers_are_records (edges g)"
    by (simp add: e qualifiers_are_records_def carries_modifier_record)
  from s have s': "\<not> carries_modifier SUBJECT d DEGRADATION"
    using carries_modifier_unique modifiers_distinct(1) by blast
  from ob have ob': "\<not> carries_modifier OBJECT d ACTIVITY"
    using carries_modifier_unique modifiers_distinct(1) by blast
  from ab have ba: "b \<noteq> a" by simp
  show ?thesis
    unfolding has_activity_def is_degraded_def
    by (simp add: node_has_modifier_records [OF a wf] node_has_modifier_records [OF b wf]
                  e ab ba s ob s' ob')
qed

text \<open>
  C1: for a node \<open>n\<close> of the graph \<open>g\<close> whose edges carry sub-records as qualifiers,
  \<^verbatim>\<open>_node_has_modifier\<close> returns, without raising, the truth value of: some in-edge of
  \<open>n\<close> carries an object qualifier sub-record whose modifier equals \<open>m\<close>, or some out-edge
  of \<open>n\<close> carries a subject qualifier sub-record whose modifier equals \<open>m\<close>. On any graph,
  whenever the function returns a boolean, it is that truth value: true only on a match,
  false only when both scans found none. A loop returns true at the first match: the
  edges after a matching edge are not inspected, whatever they hold. In a graph whose
  only edge goes from \<open>a\<close> to another node \<open>b\<close> with subject modifier Activity and object
  modifier Degradation, \<open>a\<close> has an activity and is not degraded, and \<open>b\<close> is degraded and
  has no activity.
\<close>

theorem node_has_modifier_scan:
  "(n \<in> dom (node g) \<and> qualifiers_are_records (edges g) \<longrightarrow>
      node_has_modifier g n m = Inr (in_edge_carries g n m \<or> out_edge_carries g n m)) \<and>
   (node_has_modifier g n m = Inr r \<longrightarrow>
      r = (in_edge_carries g n m \<or> out_edge_carries g n m)) \<and>
   (list_all (\<lambda>e. qualifier_is_record side (edge_dict e)) pre \<and>
    carries_modifier side d m \<longrightarrow>
      scan_edges side (pre @ (u, v, d) # post) m = Inr True) \<and>
   (edges h = [(a, b, c)] \<and> a \<noteq> b \<and> a \<in> dom (node h) \<and> b \<in> dom (node h) \<and>
    carries_modifier SUBJECT c ACTIVITY \<and> carries_modifier OBJECT c DEGRADATION \<longrightarrow>
      has_activity h a = Inr True \<and> is_degraded h a = Inr False \<and>
      has_activity h b = Inr False \<and> is_degraded h b = Inr True)"
proof (intro conjI impI)
  assume "n \<in> dom (node g) \<and> qualifiers_are_records (edges g)"
  then show "node_has_modifier g n m = Inr (in_edge_carries g n m \<or> out_edge_carries g n m)"
    unfolding in_edge_carries_def out_edge_carries_def
    by (simp add: node_has_modifier_records)
next
  assume "node_has_modifier g n m = Inr r"
  then show "r = (in_edge_carries g n m \<or> out_edge_carries g n m)"
    unfolding in_edge_carries_def out_edge_carries_def
    by (rule node_has_modifier_result)
next
  assume "list_all (\<lambda>e. qualifier_is_record side (edge_dict e)) pre \<and>
    carries_modifier side d m"
  then show "scan_edges side (pre @ (u, v, d) # post) m = Inr True"
    by (simp add: scan_edges_match)
next
  assume "edges h = [(a, b, c)] \<and> a \<noteq> b \<and> a \<in> dom (node h) \<and> b \<in> dom (node h) \<and>
    carries_modifier SUBJECT c ACTIVITY \<and> carries_modifier OBJECT c DEGRADATION"
  then show "has_activity h a = Inr True" "is_degraded h a = Inr False"
    "has_activity h b = Inr False" "is_degraded h b = Inr True"
    using single_edge_modifiers [of h a b c] by simp_all
qed

theorem node_has_modifier_scan_witness:
  "''u'' \<in> dom (node graph_active) \<and> qualifiers_are_records (edges graph_active) \<and>
   in_edge_carries graph_active ''v'' DEGRADATION \<and>
   node_has_modifier graph_active ''v'' DEGRADATION = Inr True \<and>
   out_edge_carries graph_active ''u'' ACTIVITY \<and>
   node_has_modifier graph_active ''u'' ACTIVITY = Inr True \<and>
   node_has_modifier graph_active ''u'' DEGRADATION = Inr False \<and>
   has_activity graph_active ''v'' = Inr False"
  using node_has_modifier_scan
    [where g = graph_active and n = "''u''" and m = DEGRADATION and r = False
       and pre = "[]" and side = OBJECT and u = "''u''" and v = "''v''" and post = "[]"
       and d = "[(OBJECT, Dict [(MODIFIER, Str DEGRADATION)])]"
       and h = graph_active and a = "''u''" and b = "''v''"
       and c = "[(RELATION, Str INCREASES), (SUBJECT, Dict [(MODIFIER, Str ACTIVITY)]),
                 (OBJECT, Dict [(MODIFIER, Str DEGRADATION)])]"]
  by (simp add: graph_active_def two_nodes_def qualifiers_are_records_def
        qualifier_is_record_def in_edge_carries_def out_edge_carries_def carries_modifier_def
        has_activity_def is_degraded_def node_has_modifier_def in_edges_iter_def
        out_edges_iter_def qualifier_matches_def dict_contains_def dict_getitem_def
        SUBJECT_def OBJECT_def RELATION_def MODIFIER_def ACTIVITY_def DEGRADATION_def)

text \<open>
  C9: a subject or object qualifier sub-record that lacks the \<open>modifier\<close> key makes the
  condition of the loop false without raising: the loop skips the edge and continues
  with the remaining edges. Such a sub-record is a well-formed qualifier that carries no
  modifier, so for a node \<open>n\<close> of a graph whose qualifiers are sub-records, with or
  without a modifier, \<^verbatim>\<open>_node_has_modifier\<close> returns false, and raises nothing, when no
  edge of \<open>n\<close> matches.
\<close>

theorem node_has_modifier_skips_missing_modifier:
  "(lacks_modifier side d \<longrightarrow>
      qualifier_matches side d m = Inr False \<and>
      scan_edges side ((u, v, d) # es) m = scan_edges side es m \<and>
      qualifier_is_record side d \<and> \<not> carries_modifier side d m) \<and>
   (n \<in> dom (node g) \<and> qualifiers_are_records (edges g) \<and>
    \<not> in_edge_carries g n m \<and> \<not> out_edge_carries g n m \<longrightarrow>
      node_has_modifier g n m = Inr False)"
proof (intro conjI impI)
  assume l: "lacks_modifier side d"
  then show "qualifier_matches side d m = Inr False"
    by (rule qualifier_matches_lacks)
  from l show "scan_edges side ((u, v, d) # es) m = scan_edges side es m"
    by (rule scan_edges_skip)
  from l show "qualifier_is_record side d" "\<not> carries_modifier side d m"
    by (simp_all add: lacks_modifier_record)
next
  assume "n \<in> dom (node g) \<and> qualifiers_are_records (edges g) \<and>
    \<not> in_edge_carries g n m \<and> \<not> out_edge_carries g n m"
  then show "node_has_modifier g n m = Inr False"
    unfolding in_edge_carries_def out_edge_carries_def
    by (simp add: node_has_modifier_records)
qed

theorem node_has_modifier_skips_missing_modifier_witness:
  "lacks_modifier OBJECT (edge_dict (hd (edges graph_location))) \<and>
   ''v'' \<in> dom (node graph_location) \<and> qualifiers_are_records (edges graph_location) \<and>
   node_has_modifier graph_location ''v'' TRANSLOCATION = Inr False \<and>
   is_degraded graph_location ''v'' = Inr False"
  using node_has_modifier_skips_missing_modifier
    [where g = graph_location and n = "''v''" and m = TRANSLOCATION and side = OBJECT
       and d = "edge_dict (hd (edges graph_location))" and u = "''u''" and v = "''v''"
       and es = "[]"]
  by (simp add: graph_location_def two_nodes_def qualifiers_are_records_def
        qualifier_is_record_def lacks_modifier_def in_edge_carries_def out_edge_carries_def
        carries_modifier_def is_degraded_def node_has_modifier_def in_edges_iter_def
        out_edges_iter_def qualifier_matches_def dict_contains_def dict_getitem_def
        SUBJECT_def OBJECT_def RELATION_def MODIFIER_def)

lemma translocation_modifier:
  "map_of (translocation from_loc to_loc) MODIFIER = Some (Str TRANSLOCATION)"
  "map_of secretion MODIFIER = Some (Str TRANSLOCATION)"
  by (simp_all add: translocation_def secretion_def)

text \<open>
  C7: in a graph with an edge from \<open>u\<close> to a node \<open>v\<close> whose object qualifier is a
  translocation, or a secretion, \<^verbatim>\<open>is_translocated\<close> is true of \<open>v\<close>, provided the
  qualifiers of the edges before that edge are sub-records.
\<close>

theorem is_translocated_object:
  "v \<in> dom (node g) \<and> edges g = pre @ (u, v, d) # post \<and> qualifiers_are_records pre \<and>
   (map_of d OBJECT = Some (Dict (translocation from_loc to_loc)) \<or>
    map_of d OBJECT = Some (Dict secretion)) \<longrightarrow>
      is_translocated g v = Inr True"
proof
  assume *: "v \<in> dom (node g) \<and> edges g = pre @ (u, v, d) # post \<and>
    qualifiers_are_records pre \<and>
    (map_of d OBJECT = Some (Dict (translocation from_loc to_loc)) \<or>
     map_of d OBJECT = Some (Dict secretion))"
  then have "carries_modifier OBJECT d TRANSLOCATION"
    by (auto simp: carries_modifier_def translocation_modifier)
  with * show "is_translocated g v = Inr True"
    unfolding is_translocated_def
    by (simp add: node_has_modifier_first_in_match [of v g pre u d post])
qed

theorem is_translocated_object_witness:
  "''v'' \<in> dom (node graph_translocation) \<and> ''v'' \<in> dom (node graph_secretion) \<and>
   edges graph_translocation =
     [] @ (''u'', ''v'', edge_dict (hd (edges graph_translocation))) # [] \<and>
   edges graph_secretion = [] @ (''u'', ''v'', edge_dict (hd (edges graph_secretion))) # [] \<and>
   qualifiers_are_records ([] :: (string \<times> string \<times> edge_data) list) \<and>
   map_of (edge_dict (hd (edges graph_translocation))) OBJECT =
     Some (Dict (translocation (Str ''nucleus'') (Str ''cytoplasm''))) \<and>
   map_of (edge_dict (hd (edges graph_secretion))) OBJECT = Some (Dict secretion) \<and>
   is_translocated graph_translocation ''v'' = Inr True \<and>
   is_translocated graph_secretion ''v'' = Inr True"
  using is_translocated_object
      [of "''v''" graph_translocation "[]" "''u''"
          "edge_dict (hd (edges graph_translocation))" "[]" "Str ''nucleus''"
          "Str ''cytoplasm''"]
    is_translocated_object
      [of "''v''" graph_secretion "[]" "''u''" "edge_dict (hd (edges graph_secretion))" "[]"]
  by (simp add: graph_translocation_def graph_secretion_def two_nodes_def
        qualifiers_are_records_def RELATION_def OBJECT_def)

section \<open>Properties of the causal-edge predicates\<close>

lemma any_causal_relations:
  "edges_have_relation es \<Longrightarrow> any_causal es = Inr (\<exists>e \<in> set es. is_causal (edge_dict e))"
proof (induction es)
  case Nil
  then show ?case by simp
next
  case (Cons e es)
  obtain u v d where e: "e = (u, v, d)" by (cases e)
  from Cons.prems obtain r where r: "map_of d RELATION = Some (Str r)"
    by (auto simp: e edges_have_relation_def relation_token_def
             split: option.splits pyval.splits)
  from Cons.prems have "edges_have_relation es"
    by (simp add: edges_have_relation_def)
  with Cons.IH r show ?case
    by (simp add: e dict_getitem_def is_causal_def relation_token_def)
qed

lemma edges_have_relation_filter:
  "edges_have_relation es \<Longrightarrow> edges_have_relation (filter P es)"
  by (simp add: edges_have_relation_def list_all_iff)

lemma has_causal_edges_relations:
  assumes n: "n \<in> dom (node g)" and wf: "edges_have_relation (edges g)"
  shows "has_causal_in_edges g n = Inr (in_edge_causal g n)"
    and "has_causal_out_edges g n = Inr (out_edge_causal g n)"
proof -
  let ?ins = "filter (\<lambda>e. edge_target e = n) (edges g)"
  let ?outs = "filter (\<lambda>e. edge_source e = n) (edges g)"
  have "(\<exists>e \<in> set ?ins. is_causal (edge_dict e)) \<longleftrightarrow> in_edge_causal g n"
    unfolding set_filter in_edge_causal_def by blast
  moreover have "any_causal ?ins = Inr (\<exists>e \<in> set ?ins. is_causal (edge_dict e))"
    using wf by (intro any_causal_relations edges_have_relation_filter)
  ultimately show "has_causal_in_edges g n = Inr (in_edge_causal g n)"
    using n by (simp only: has_causal_in_edges_def in_edges_iter_def if_True sum.case)
  have "(\<exists>e \<in> set ?outs. is_causal (edge_dict e)) \<longleftrightarrow> out_edge_causal g n"
    unfolding set_filter out_edge_causal_def by blast
  moreover have "any_causal ?outs = Inr (\<exists>e \<in> set ?outs. is_causal (edge_dict e))"
    using wf by (intro any_causal_relations edges_have_relation_filter)
  ultimately show "has_causal_out_edges g n = Inr (out_edge_causal g n)"
    using n by (simp only: has_causal_out_edges_def out_edges_iter_def if_True sum.case)
qed

lemma is_causal_relation: "is_causal d \<Longrightarrow> relation_token d \<noteq> None"
  by (auto simp: is_causal_def split: option.splits)

lemma single_edge_causal:
  assumes e: "edges g = [(a, b, d)]" and ab: "a \<noteq> b"
    and a: "a \<in> dom (node g)" and b: "b \<in> dom (node g)" and d: "is_causal d"
  shows "has_causal_out_edges g a = Inr True \<and> has_causal_in_edges g a = Inr False \<and>
         has_causal_in_edges g b = Inr True \<and> has_causal_out_edges g b = Inr False"
proof -
  from is_causal_relation [OF d] have wf: "edges_have_relation (edges g)"
    by (simp add: e edges_have_relation_def)
  from ab have ba: "b \<noteq> a" by simp
  show ?thesis
    by (simp add: has_causal_edges_relations [OF a wf] has_causal_edges_relations [OF b wf]
          in_edge_causal_def out_edge_causal_def e ab ba d)
qed

lemma any_causal_result:
  "any_causal es = Inr b \<Longrightarrow> b = (\<exists>e \<in> set es. is_causal (edge_dict e))"
proof (induction es)
  case Nil
  then show ?case by auto
next
  case (Cons e es)
  obtain u v d where e: "e = (u, v, d)" by (cases e)
  from Cons.prems obtain x where x: "map_of d RELATION = Some x"
    by (auto simp: e dict_getitem_def split: option.splits sum.splits)
  with Cons.prems obtain r where r: "x = Str r"
    by (cases x) (auto simp: e dict_getitem_def)
  show ?case
  proof (cases "r \<in> CAUSAL_RELATIONS")
    case True
    with Cons.prems x r show ?thesis
      by (auto simp: e dict_getitem_def is_causal_def relation_token_def)
  next
    case False
    with Cons.prems x r have "any_causal es = Inr b"
      by (simp add: e dict_getitem_def)
    with Cons.IH False x r show ?thesis
      by (simp add: e is_causal_def relation_token_def)
  qed
qed

lemma has_causal_edges_result:
  "has_causal_in_edges g n = Inr b \<Longrightarrow> b = in_edge_causal g n"
  "has_causal_out_edges g n = Inr b \<Longrightarrow> b = out_edge_causal g n"
proof -
  assume "has_causal_in_edges g n = Inr b"
  then have "any_causal (filter (\<lambda>e. edge_target e = n) (edges g)) = Inr b"
    by (auto simp: has_causal_in_edges_def in_edges_iter_def split: if_splits)
  from any_causal_result [OF this] show "b = in_edge_causal g n"
    unfolding set_filter in_edge_causal_def by blast
next
  assume "has_causal_out_edges g n = Inr b"
  then have "any_causal (filter (\<lambda>e. edge_source e = n) (edges g)) = Inr b"
    by (auto simp: has_causal_out_edges_def out_edges_iter_def split: if_splits)
  from any_causal_result [OF this] show "b = out_edge_causal g n"
    unfolding set_filter out_edge_causal_def by blast
qed

text \<open>
  C6: for a node \<open>n\<close> of a graph \<open>g\<close> whose edges carry a relation token,
  \<^verbatim>\<open>has_causal_in_edges\<close> returns the truth value of: some in-edge of \<open>n\<close> has a relation
  token in the causal set, and \<^verbatim>\<open>has_causal_out_edges\<close> the same of the out-edges. On any
  graph, a boolean returned by either predicate is that truth value. In a graph whose
  only edge is a causal edge from \<open>a\<close> to another node \<open>b\<close>, \<open>a\<close> has a causal out-edge and
  no causal in-edge, and \<open>b\<close> has a causal in-edge and no causal out-edge.
\<close>

theorem has_causal_edges_iff:
  "(n \<in> dom (node g) \<and> edges_have_relation (edges g) \<longrightarrow>
      has_causal_in_edges g n = Inr (in_edge_causal g n) \<and>
      has_causal_out_edges g n = Inr (out_edge_causal g n)) \<and>
   (has_causal_in_edges g n = Inr r \<longrightarrow> r = in_edge_causal g n) \<and>
   (has_causal_out_edges g n = Inr r \<longrightarrow> r = out_edge_causal g n) \<and>
   (edges h = [(a, b, d)] \<and> a \<noteq> b \<and> a \<in> dom (node h) \<and> b \<in> dom (node h) \<and>
    is_causal d \<longrightarrow>
      has_causal_out_edges h a = Inr True \<and> has_causal_in_edges h a = Inr False \<and>
      has_causal_in_edges h b = Inr True \<and> has_causal_out_edges h b = Inr False)"
  using has_causal_edges_relations [of n g] single_edge_causal [of h a b d]
    has_causal_edges_result [of g n r]
  by blast

theorem has_causal_edges_iff_witness:
  "''u'' \<in> dom (node graph_active) \<and> ''v'' \<in> dom (node graph_active) \<and>
   edges_have_relation (edges graph_active) \<and>
   is_causal (edge_dict (hd (edges graph_active))) \<and>
   out_edge_causal graph_active ''u'' \<and> \<not> in_edge_causal graph_active ''u'' \<and>
   has_causal_out_edges graph_active ''u'' = Inr True \<and>
   has_causal_in_edges graph_active ''u'' = Inr False \<and>
   has_causal_in_edges graph_active ''v'' = Inr True \<and>
   has_causal_out_edges graph_active ''v'' = Inr False"
  using has_causal_edges_iff
    [where g = graph_active and n = "''u''" and h = graph_active and a = "''u''"
       and b = "''v''" and d = "edge_dict (hd (edges graph_active))"]
  by (simp add: graph_active_def two_nodes_def edges_have_relation_def relation_token_def
        is_causal_def in_edge_causal_def out_edge_causal_def CAUSAL_RELATIONS_def
        RELATION_def SUBJECT_def OBJECT_def)

section \<open>Failure on an absent node\<close>

lemma has_causal_absent:
  "n \<notin> dom (node g) \<Longrightarrow> has_causal_in_edges g n = Inl NodeNotFound"
  "n \<notin> dom (node g) \<Longrightarrow> has_causal_out_edges g n = Inl NodeNotFound"
  by (simp_all add: has_causal_in_edges_def has_causal_out_edges_def in_edges_iter_def
        out_edges_iter_def)

lemma edge_errors_propagate:
  "in_edges_iter g n = Inl e \<Longrightarrow> node_has_modifier g n m = Inl e"
  "in_edges_iter g n = Inl e \<Longrightarrow> has_causal_in_edges g n = Inl e"
  "out_edges_iter g n = Inl e \<Longrightarrow> has_causal_out_edges g n = Inl e"
  by (simp_all add: node_has_modifier_def has_causal_in_edges_def has_causal_out_edges_def)

text \<open>
  C8: for a node reference \<open>n\<close> that is not present in the graph, the edge iteration of
  the graph collaborator fails with NodeNotFound, and \<^verbatim>\<open>_node_has_modifier\<close>, the three
  predicates derived from it and the two causal-edge predicates fail with NodeNotFound.
  The scanner has no check of its own: an error of the edge iteration is the result of
  the scanner, unchanged.
\<close>

theorem absent_node_not_found:
  "(n \<notin> dom (node g) \<longrightarrow>
      in_edges_iter g n = Inl NodeNotFound \<and> out_edges_iter g n = Inl NodeNotFound \<and>
      node_has_modifier g n m = Inl NodeNotFound \<and>
      has_activity g n = Inl NodeNotFound \<and> is_degraded g n = Inl NodeNotFound \<and>
      is_translocated g n = Inl NodeNotFound \<and>
      has_causal_in_edges g n = Inl NodeNotFound \<and>
      has_causal_out_edges g n = Inl NodeNotFound) \<and>
   (in_edges_iter g n = Inl e \<longrightarrow>
      node_has_modifier g n m = Inl e \<and> has_causal_in_edges g n = Inl e) \<and>
   (out_edges_iter g n = Inl e \<longrightarrow> has_causal_out_edges g n = Inl e)"
  by (simp add: node_has_modifier_absent has_causal_absent edge_errors_propagate
        has_activity_def is_degraded_def is_translocated_def in_edges_iter_def
        out_edges_iter_def)

theorem absent_node_not_found_witness:
  "''w'' \<notin> dom (node graph_active) \<and>
   node_has_modifier graph_active ''w'' ACTIVITY = Inl NodeNotFound \<and>
   has_activity graph_active ''w'' = Inl NodeNotFound \<and>
   is_degraded graph_active ''w'' = Inl NodeNotFound \<and>
   is_translocated graph_active ''w'' = Inl NodeNotFound \<and>
   has_causal_in_edges graph_active ''w'' = Inl NodeNotFound \<and>
   has_causal_out_edges graph_active ''w'' = Inl NodeNotFound"
  using absent_node_not_found [of "''w''" graph_active ACTIVITY NodeNotFound]
  by (simp add: graph_active_def two_nodes_def)

section \<open>Properties of the variant predicates\<close>

lemma any_kind_records:
  "list_all is_variant_record vs \<Longrightarrow>
   any_kind vs variant = Inr (\<exists>v \<in> set vs. variant_kind v = Some (Str variant))"
proof (induction vs)
  case Nil
  then show ?case by simp
next
  case (Cons v vs)
  from Cons.prems obtain r k where v: "v = Dict r" and k: "map_of r KIND = Some k"
    by (auto simp: is_variant_record_def split: pyval.splits)
  from Cons.prems have "list_all is_variant_record vs" by simp
  with Cons.IH v k show ?case
    by (simp add: dict_getitem_def variant_kind_def)
qed

lemma node_has_variant_absent:
  "\<not> dict_contains data VARIANTS \<Longrightarrow> node_has_variant data variant = Inr False"
  by (simp add: node_has_variant_def)

lemma node_has_variant_records:
  assumes "variants_are_records data"
  shows "node_has_variant data variant =
     Inr (dict_contains data VARIANTS \<and> has_kind data variant)"
proof (cases "map_of data VARIANTS")
  case None
  then show ?thesis by (simp add: node_has_variant_def dict_contains_def)
next
  case (Some x)
  with assms obtain vs where x: "x = Seq vs" and vs: "list_all is_variant_record vs"
    by (auto simp: variants_are_records_def split: pyval.splits)
  from Some x show ?thesis
    by (simp add: node_has_variant_def dict_contains_def dict_getitem_def has_kind_def
          variant_records_def any_kind_records [OF vs])
qed

lemma any_kind_result:
  "any_kind vs variant = Inr b \<Longrightarrow>
   b = (\<exists>v \<in> set vs. variant_kind v = Some (Str variant))"
proof (induction vs)
  case Nil
  then show ?case by auto
next
  case (Cons v vs)
  from Cons.prems obtain k where k: "py_getitem v KIND = Inr k"
    by (auto split: sum.splits)
  then have vk: "variant_kind v = Some k"
    by (cases v) (auto simp: variant_kind_def dict_getitem_def split: option.splits)
  show ?case
  proof (cases "k = Str variant")
    case True
    with Cons.prems k vk show ?thesis by auto
  next
    case False
    with Cons.prems k have "any_kind vs variant = Inr b" by simp
    with Cons.IH False vk show ?thesis by simp
  qed
qed

lemma any_kind_strings:
  "any_kind (map (\<lambda>c. Str (f c)) xs) variant = Inr b \<Longrightarrow> \<not> b"
  by (cases xs) auto

lemma node_has_variant_result:
  assumes "node_has_variant data variant = Inr b"
  shows "b = (dict_contains data VARIANTS \<and> has_kind data variant)"
proof (cases "map_of data VARIANTS")
  case None
  with assms show ?thesis by (auto simp: node_has_variant_def dict_contains_def)
next
  case (Some x)
  show ?thesis
  proof (cases x)
    case (Seq vs)
    with Some assms have "any_kind vs variant = Inr b"
      by (simp add: node_has_variant_def dict_contains_def dict_getitem_def)
    from any_kind_result [OF this] Some Seq show ?thesis
      by (simp add: dict_contains_def has_kind_def variant_records_def)
  next
    case (Str s)
    with Some assms have "any_kind (map (\<lambda>c. Str [c]) s) variant = Inr b"
      by (simp add: node_has_variant_def dict_contains_def dict_getitem_def)
    from any_kind_strings [OF this] Some Str show ?thesis
      by (simp add: has_kind_def variant_records_def)
  next
    case (Dict kvs)
    with Some assms have "any_kind (map (\<lambda>kv. Str (fst kv)) kvs) variant = Inr b"
      by (simp add: node_has_variant_def dict_contains_def dict_getitem_def)
    from any_kind_strings [OF this] Some Dict show ?thesis
      by (simp add: has_kind_def variant_records_def)
  qed
qed

text \<open>
  C5: called on node data \<open>d\<close>, \<^verbatim>\<open>has_variant\<close> returns whether the key \<open>variants\<close> is
  present. The four variant predicates return false, and raise nothing, when the key is
  absent; and when the \<open>variants\<close> entry of \<open>d\<close> is a sequence of variant records that
  carry a \<open>kind\<close>, as the data model says, each returns whether the key is present and
  at least one variant record has the respective kind. On any node data, a boolean
  returned by \<^verbatim>\<open>_node_has_variant\<close> is that truth value.
\<close>

theorem variant_predicates:
  "has_variant [Val (Dict d) :: 'r pyarg] = Inr (dict_contains d VARIANTS) \<and>
   (\<not> dict_contains d VARIANTS \<longrightarrow>
      has_protein_modification [Val (Dict d) :: 'r pyarg] = Inr False \<and>
      has_gene_modification [Val (Dict d) :: 'r pyarg] = Inr False \<and>
      has_hgvs [Val (Dict d) :: 'r pyarg] = Inr False \<and>
      has_fragment [Val (Dict d) :: 'r pyarg] = Inr False) \<and>
   (variants_are_records d \<longrightarrow>
      has_protein_modification [Val (Dict d) :: 'r pyarg] =
        Inr (dict_contains d VARIANTS \<and> has_kind d PMOD) \<and>
      has_gene_modification [Val (Dict d) :: 'r pyarg] =
        Inr (dict_contains d VARIANTS \<and> has_kind d GMOD) \<and>
      has_hgvs [Val (Dict d) :: 'r pyarg] =
        Inr (dict_contains d VARIANTS \<and> has_kind d HGVS) \<and>
      has_fragment [Val (Dict d) :: 'r pyarg] =
        Inr (dict_contains d VARIANTS \<and> has_kind d FRAGMENT)) \<and>
   (node_has_variant d variant = Inr r \<longrightarrow>
      r = (dict_contains d VARIANTS \<and> has_kind d variant))"
  using node_has_variant_result [of d variant r]
  by (simp add: has_variant_def has_variant_fn_def unary_def
        has_protein_modification_def has_protein_modification_fn_def
        has_gene_modification_def has_gene_modification_fn_def
        has_hgvs_def has_hgvs_fn_def has_fragment_def has_fragment_fn_def
        node_has_variant_absent node_has_variant_records)

lemma example_variants:
  "variants_are_records p1" "variants_are_records p2" "\<not> dict_contains p1 VARIANTS"
  "dict_contains p2 VARIANTS" "has_kind p2 PMOD" "has_kind p2 HGVS" "\<not> has_kind p2 GMOD"
  "\<not> has_kind p2 FRAGMENT"
  by (simp_all add: p1_def p2_def variants_are_records_def is_variant_record_def
        dict_contains_def has_kind_def variant_records_def variant_kind_def
        FUNCTION_def VARIANTS_def KIND_def PMOD_def HGVS_def GMOD_def FRAGMENT_def)

theorem variant_predicates_witness:
  "\<not> dict_contains p1 VARIANTS \<and> variants_are_records p2 \<and>
   has_variant [Val (Dict p1) :: string pyarg] = Inr False \<and>
   has_protein_modification [Val (Dict p1) :: string pyarg] = Inr False \<and>
   has_variant [Val (Dict p2) :: string pyarg] = Inr True \<and>
   has_protein_modification [Val (Dict p2) :: string pyarg] = Inr True \<and>
   has_gene_modification [Val (Dict p2) :: string pyarg] = Inr False \<and>
   has_hgvs [Val (Dict p2) :: string pyarg] = Inr True \<and>
   has_fragment [Val (Dict p2) :: string pyarg] = Inr False"
  using variant_predicates [where d = p1 and 'r = string]
    variant_predicates [where d = p2 and 'r = string]
  by (simp add: example_variants)

section \<open>Properties of the exclusion-set filter\<close>

lemma builder_data_form:
  "node_exclusion_filter_builder canon nodes [Val (Dict d)] =
     Inr (canon d \<notin> canonical_set canon nodes)"
  by (simp add: node_exclusion_filter_builder_def canonical_set_def unary_def)

lemma builder_graph_form:
  "node g n = Some d \<Longrightarrow>
   node_exclusion_filter_builder canon nodes [BELGraph g, Ref n] =
     Inr (canon d \<notin> canonical_set canon nodes)"
  by (simp add: node_exclusion_filter_builder_def canonical_set_def unary_def)

lemma builder_insensitive:
  "node_exclusion_filter_builder canon (xs @ NodeDict x # ys) =
   node_exclusion_filter_builder canon (xs @ NodeTuple (canon x) # ys)"
  by (simp add: node_exclusion_filter_builder_def)

text \<open>
  C3: for every canonicalization and every input sequence of node data and node
  references, the predicate built by \<^verbatim>\<open>node_exclusion_filter_builder\<close> returns, on node
  data \<open>d\<close> and on a node of a graph whose data is \<open>d\<close>, whether the canonical reference of
  \<open>d\<close> is outside the canonicalized input set. The predicate built from the empty sequence
  returns true, the predicate built from \<open>[d]\<close> returns false on \<open>d\<close>, and replacing an
  input node data \<open>x\<close> by its canonical reference does not change the predicate.
\<close>

theorem node_exclusion_filter:
  "node_exclusion_filter_builder canon nodes [Val (Dict d)] =
     Inr (canon d \<notin> canonical_set canon nodes) \<and>
   (node g n = Some d \<longrightarrow>
      node_exclusion_filter_builder canon nodes [BELGraph g, Ref n] =
        Inr (canon d \<notin> canonical_set canon nodes)) \<and>
   node_exclusion_filter_builder canon [] [Val (Dict d)] = Inr True \<and>
   (node g n = Some d \<longrightarrow>
      node_exclusion_filter_builder canon [] [BELGraph g, Ref n] = Inr True) \<and>
   node_exclusion_filter_builder canon [NodeDict d] [Val (Dict d)] = Inr False \<and>
   node_exclusion_filter_builder canon (xs @ NodeDict x # ys) =
     node_exclusion_filter_builder canon (xs @ NodeTuple (canon x) # ys)"
  using builder_insensitive [of canon xs x ys]
  by (simp add: builder_data_form builder_graph_form canonical_set_def)

theorem node_exclusion_filter_witness:
  "node \<lparr>node = [name_tuple g1 \<mapsto> g1], edges = []\<rparr> (name_tuple g1) = Some g1 \<and>
   node_exclusion_filter_builder name_tuple [NodeDict p1] [Val (Dict p1)] = Inr False \<and>
   node_exclusion_filter_builder name_tuple [NodeTuple (name_tuple p1)] [Val (Dict p1)]
     = Inr False \<and>
   node_exclusion_filter_builder name_tuple [NodeDict p1] [Val (Dict g1)] = Inr True \<and>
   node_exclusion_filter_builder name_tuple [NodeDict p1]
     [BELGraph \<lparr>node = [name_tuple g1 \<mapsto> g1], edges = []\<rparr>, Ref (name_tuple g1)]
     = Inr True \<and>
   node_exclusion_filter_builder name_tuple [] [Val (Dict g1)] = Inr True"
proof -
  let ?g = "\<lparr>node = [name_tuple g1 \<mapsto> g1], edges = []\<rparr>"
  have p: "name_tuple p1 = [''Protein'', ''HGNC'', ''BRAF'']"
    by (simp add: name_tuple_def p1_def FUNCTION_def PROTEIN_def)
  have g: "name_tuple g1 = [''Gene'', ''HGNC'', ''BRAF'']"
    by (simp add: name_tuple_def g1_def FUNCTION_def GENE_def)
  show ?thesis
    using node_exclusion_filter
        [where canon = name_tuple and nodes = "[NodeDict p1]" and d = g1 and g = ?g
           and n = "name_tuple g1" and xs = "[]" and x = p1 and ys = "[]"]
      node_exclusion_filter
        [where canon = name_tuple and nodes = "[NodeDict p1]" and d = p1 and g = ?g
           and n = "name_tuple g1" and xs = "[]" and x = p1 and ys = "[]"]
    by (simp add: builder_data_form builder_graph_form canonical_set_def p g)
qed

end
